theory Spec2Isabelle
  imports Complex_Main "HOL-Library.Multiset" "HOL-Library.AList" "HOL-Library.Log_Nat"
begin

section \<open>Shot memory store and course insight engine (index.js)\<close>

subsection \<open>JavaScript values used by the core\<close>

text \<open>
  A field that is \<^verbatim>\<open>undefined\<close>, \<^verbatim>\<open>null\<close> or missing from the JSON document is \<open>None\<close>
  (\<^verbatim>\<open>JSON.stringify\<close> drops \<^verbatim>\<open>undefined\<close>, and the code never tells \<^verbatim>\<open>null\<close> from
  \<^verbatim>\<open>undefined\<close>). A string is falsy exactly when it is empty, a number exactly when it
  is zero (the document holds no NaN).
\<close>

definition truthy :: "string option \<Rightarrow> bool" where
  "truthy v = (case v of None \<Rightarrow> False | Some s \<Rightarrow> s \<noteq> [])"

definition truthy_num :: "rat option \<Rightarrow> bool" where
  "truthy_num v = (case v of None \<Rightarrow> False | Some d \<Rightarrow> d \<noteq> 0)"

text \<open>\<^verbatim>\<open>a || b\<close> on optional strings.\<close>

definition js_or :: "string option \<Rightarrow> string option \<Rightarrow> string option" where
  "js_or a b = (if truthy a then a else b)"

subsection \<open>Numbers\<close>

text \<open>
  A JavaScript number is a double. \<open>double x\<close> is the double nearest to the rational \<open>x\<close>,
  the one with the even significand on a tie: with \<open>2^e \<le> |x| < 2^(e+1)\<close> the doubles
  around \<open>x\<close> are the multiples of \<open>2^(e-52)\<close>. It is what division, addition and
  subtraction return for the exact result \<open>x\<close>, and what a decimal numeral \<open>x\<close> is read
  as. The exponent is not bounded here: overflow to Infinity and the subnormal range are
  left out. The counts of this program are below \<open>2^32\<close>, the length of an array, and
  the distances it stores are finite doubles (\<^verbatim>\<open>Number.isFinite\<close> guards them), written as
  numerals that are read back as the same doubles.
\<close>

definition binexp :: "rat \<Rightarrow> int" where
  "binexp a =
     (let (p, q) = quotient_of a;
          k = bitlen p - bitlen q
      in if 2 powi k \<le> a then k else k - 1)"

definition round_even :: "rat \<Rightarrow> int" where
  "round_even q =
     (let f = \<lfloor>q\<rfloor>; r = q - rat_of_int f
      in if r < 1 / 2 then f else if 1 / 2 < r then f + 1 else if even f then f else f + 1)"

definition double :: "rat \<Rightarrow> rat" where
  "double x =
     (if x = 0 then 0
      else (let a = \<bar>x\<bar>;
                u = 2 powi (binexp a - 52);
                m = rat_of_int (round_even (a / u)) * u
            in if x < 0 then - m else m))"

subsection \<open>Strings\<close>

text \<open>\<^verbatim>\<open>String(n)\<close> of a non-negative integer, as template literals print it.\<close>

definition digit_char :: "nat \<Rightarrow> char" where
  "digit_char d = char_of (48 + d)"

fun string_of_nat :: "nat \<Rightarrow> string" where
  "string_of_nat n =
     (if n < 10 then [digit_char n]
      else string_of_nat (n div 10) @ [digit_char (n mod 10)])"

declare string_of_nat.simps [simp del]

definition digit_val :: "char \<Rightarrow> nat" where
  "digit_val c = of_char c - 48"

definition is_digit :: "char \<Rightarrow> bool" where
  "is_digit c = (48 \<le> (of_char c :: nat) \<and> (of_char c :: nat) \<le> 57)"

definition nat_of_string :: "string \<Rightarrow> nat" where
  "nat_of_string s = fold (\<lambda>c n. 10 * n + digit_val c) s 0"


text \<open>\<^verbatim>\<open>[...new Set(xs)]\<close>: the distinct elements in order of first occurrence.\<close>

fun uniq :: "'a list \<Rightarrow> 'a list" where
  "uniq [] = []"
| "uniq (x # xs) = x # uniq (filter (\<lambda>y. y \<noteq> x) xs)"

text \<open>
  \<^verbatim>\<open>Object.keys\<close> of an object whose string keys were inserted in the order \<open>ks\<close>:
  the keys that are array indices (canonical decimal numerals below \<open>2^32 - 1\<close>) come
  first in ascending numeric order, the others follow in insertion order.
\<close>

definition is_array_index :: "string \<Rightarrow> bool" where
  "is_array_index k =
     (k \<noteq> [] \<and> list_all is_digit k \<and> string_of_nat (nat_of_string k) = k
      \<and> int (nat_of_string k) < 4294967295)"

definition object_keys :: "string list \<Rightarrow> string list" where
  "object_keys ks =
     sort_key nat_of_string (filter is_array_index ks)
     @ filter (\<lambda>k. \<not> is_array_index k) ks"

subsection \<open>Data model\<close>

text \<open>
  The fields of a stored shot that the core reads or writes. Timestamps are ISO-8601
  strings in the document; the model keeps the instant they denote, in milliseconds
  since the epoch, which is what \<^verbatim>\<open>new Date(s)\<close> computes from them. Hole numbers are
  non-negative integers. \<open>distance\<close> is the numeral written in the document; the number
  the program holds is the double it is read as.
\<close>

record recommendation =
  club :: "string option"
  aim :: "string option"
  avoid :: "string option"
  confidence :: "rat option"

record conditions =
  wind :: "string option"
  elevation :: "string option"

record shotContext =
  surface :: "string option"
  conditions :: "conditions option"

record shot =
  shot_id :: string
  courseId :: string
  holeNumber :: nat
  shotType :: "string option"
  recommendation :: "recommendation option"
  shotContext :: "shotContext option"
  clubUsed :: "string option"
  suggestedClub :: "string option"
  distance :: "rat option"
  userFeedback :: "string option"
  feedbackTimestamp :: "int option"
  timestamp :: "int option"
  uploadedAt :: "int option"
  imageUrl :: "string option"

text \<open>\<^verbatim>\<open>shot.recommendation?.club\<close>\<close>

definition rec_club :: "shot \<Rightarrow> string option" where
  "rec_club s = (case recommendation s of None \<Rightarrow> None | Some r \<Rightarrow> club r)"

text \<open>\<^verbatim>\<open>shot.shotContext?.conditions?.wind\<close> and \<^verbatim>\<open>c.conditions?.elevation\<close>\<close>

definition ctx_elevation :: "shotContext \<Rightarrow> string option" where
  "ctx_elevation c = (case conditions c of None \<Rightarrow> None | Some k \<Rightarrow> elevation k)"

definition ctx_wind :: "shotContext \<Rightarrow> string option" where
  "ctx_wind c = (case conditions c of None \<Rightarrow> None | Some k \<Rightarrow> wind k)"

definition shot_wind :: "shot \<Rightarrow> string option" where
  "shot_wind s = (case shotContext s of None \<Rightarrow> None | Some c \<Rightarrow> ctx_wind c)"

subsection \<open>Record store: loadShots, saveShots, addShot, updateShotFeedback\<close>

text \<open>
  The file \<^verbatim>\<open>data/shots.json\<close> is absent, cannot be read, holds text that \<^verbatim>\<open>JSON.parse\<close>
  rejects, or holds a JSON array of shots, as \<^verbatim>\<open>saveShots\<close> writes it. \<open>writable\<close> says
  whether \<^verbatim>\<open>fs.writeFileSync\<close> succeeds; \<open>console\<close> collects what \<^verbatim>\<open>console.error\<close> prints.
\<close>

datatype document = Absent | Unreadable | Malformed | Stored "shot list"

record world =
  document :: document
  writable :: bool
  console :: "string list"

datatype js_error = ReadError | SyntaxError | WriteError

text \<open>The body of the \<^verbatim>\<open>try\<close> block of \<^verbatim>\<open>loadShots\<close>: \<open>Inl\<close> is a thrown exception.\<close>

definition loadShots_try :: "world \<Rightarrow> js_error + shot list" where
  "loadShots_try w =
     (case document w of
        Absent \<Rightarrow> Inr []
      | Unreadable \<Rightarrow> Inl ReadError
      | Malformed \<Rightarrow> Inl SyntaxError
      | Stored xs \<Rightarrow> Inr xs)"

definition loadShots :: "world \<Rightarrow> shot list \<times> world" where
  "loadShots w =
     (case loadShots_try w of
        Inr xs \<Rightarrow> (xs, w)
      | Inl err \<Rightarrow> ([], w\<lparr>console := console w @ [''Error loading shots:'']\<rparr>))"

definition saveShots_try :: "shot list \<Rightarrow> world \<Rightarrow> js_error + world" where
  "saveShots_try shots w =
     (if writable w then Inr (w\<lparr>document := Stored shots\<rparr>) else Inl WriteError)"

definition saveShots :: "shot list \<Rightarrow> world \<Rightarrow> bool \<times> world" where
  "saveShots shots w =
     (case saveShots_try shots w of
        Inr w' \<Rightarrow> (True, w')
      | Inl err \<Rightarrow> (False, w\<lparr>console := console w @ [''Error saving shots:'']\<rparr>))"

definition addShot :: "shot \<Rightarrow> world \<Rightarrow> world" where
  "addShot shotData w =
     (let (shots, w1) = loadShots w
      in snd (saveShots (shots @ [shotData]) w1))"

text \<open>
  \<^verbatim>\<open>shots.find(s => s.id === shotId)\<close> yields the first shot with that id; the two
  assignments change that element of the array in place.
\<close>

fun update_found :: "('a \<Rightarrow> bool) \<Rightarrow> ('a \<Rightarrow> 'a) \<Rightarrow> 'a list \<Rightarrow> 'a list" where
  "update_found P f [] = []"
| "update_found P f (x # xs) = (if P x then f x # xs else x # update_found P f xs)"

definition updateShotFeedback :: "string \<Rightarrow> string option \<Rightarrow> int \<Rightarrow> world \<Rightarrow> bool \<times> world" where
  "updateShotFeedback shotId feedback now w =
     (let (shots, w1) = loadShots w
      in case find (\<lambda>s. shot_id s = shotId) shots of
           Some found \<Rightarrow>
             (True,
              snd (saveShots
                     (update_found (\<lambda>s. shot_id s = shotId)
                        (\<lambda>s. s\<lparr>userFeedback := feedback, feedbackTimestamp := Some now\<rparr>) shots)
                     w1))
         | None \<Rightarrow> (False, w1))"

subsection \<open>Relevance matcher: findRelevantShots\<close>

text \<open>The callback given to \<^verbatim>\<open>filter\<close>, with its early returns in source order.\<close>

definition relevant :: "string \<Rightarrow> nat \<Rightarrow> string option \<Rightarrow> string option \<Rightarrow> shot \<Rightarrow> bool" where
  "relevant cId holeNum sType clb s =
     (if courseId s \<noteq> cId then False
      else if holeNumber s = holeNum then
        (if truthy sType \<and> shotType s \<noteq> sType then False
         else if truthy clb \<and> rec_club s \<noteq> clb then False
         else True)
      else False)"

text \<open>\<^verbatim>\<open>new Date(a.timestamp || a.uploadedAt || 0)\<close>, as milliseconds since the epoch.\<close>

definition best_time :: "shot \<Rightarrow> int" where
  "best_time a =
     (case timestamp a of
        Some t \<Rightarrow> t
      | None \<Rightarrow> (case uploadedAt a of Some u \<Rightarrow> u | None \<Rightarrow> 0))"

text \<open>
  \<^verbatim>\<open>Array.prototype.sort\<close> is stable, and the comparator \<^verbatim>\<open>timeB - timeA\<close> orders by
  descending time: a stable sort on the negated time. The value is the array returned;
  the console line of a failed load is left out.
\<close>

definition findRelevantShots ::
  "string \<Rightarrow> nat \<Rightarrow> string option \<Rightarrow> string option \<Rightarrow> world \<Rightarrow> shot list" where
  "findRelevantShots cId holeNum sType clb w =
     sort_key (\<lambda>a. - best_time a)
       (filter (relevant cId holeNum sType clb) (fst (loadShots w)))"

subsection \<open>Feedback updater: POST /api/feedback/caddie\<close>

datatype response = Json_ok | Status_500

text \<open>
  \<open>now\<close> is the clock (\<^verbatim>\<open>Date.now()\<close>, \<^verbatim>\<open>new Date()\<close>; the readings of one request are taken
  to be the same millisecond) and \<open>rnd\<close> the nine characters taken from
  \<^verbatim>\<open>Math.random().toString(36)\<close>.
\<close>

definition feedbackData ::
  "string option \<Rightarrow> string \<Rightarrow> nat \<Rightarrow> string option \<Rightarrow> nat \<Rightarrow> string \<Rightarrow> shot" where
  "feedbackData feedback cId hole sClub now rnd =
     \<lparr>shot_id = ''feedback-'' @ string_of_nat now @ ''-'' @ rnd,
      courseId = cId, holeNumber = hole, shotType = None, recommendation = None,
      shotContext = None, clubUsed = None, suggestedClub = sClub, distance = None,
      userFeedback = feedback, feedbackTimestamp = Some (int now),
      timestamp = Some (int now), uploadedAt = None, imageUrl = None\<rparr>"

text \<open>
  The handler. Nothing in the body of its \<^verbatim>\<open>try\<close> throws on a world of this model, so
  the \<^verbatim>\<open>catch\<close> branch (status 500) is never taken; the result of
  \<^verbatim>\<open>updateShotFeedback\<close> is dropped, as in the source.
\<close>

definition feedback_caddie ::
  "string option \<Rightarrow> string option \<Rightarrow> string \<Rightarrow> nat \<Rightarrow> string option \<Rightarrow> nat \<Rightarrow> string
     \<Rightarrow> world \<Rightarrow> response \<times> world" where
  "feedback_caddie shotId feedback cId hole sClub now rnd w =
     (case shotId of
        Some sid \<Rightarrow>
          (if sid \<noteq> [] then (Json_ok, snd (updateShotFeedback sid feedback (int now) w))
           else (Json_ok, addShot (feedbackData feedback cId hole sClub now rnd) w))
      | None \<Rightarrow> (Json_ok, addShot (feedbackData feedback cId hole sClub now rnd) w))"

subsection \<open>Photo analysis: the record that POST /api/photo/analyze stores\<close>

definition mock_recommendation :: "string \<Rightarrow> recommendation" where
  "mock_recommendation nst =
     \<lparr>club = Some (if nst = ''putt'' then ''Putter'' else if nst = ''chip'' then ''SW''
                   else ''7 iron''),
      aim = Some (if nst = ''putt'' then ''center cup''
                  else if nst = ''approach'' then ''center green'' else ''center fairway''),
      avoid = Some (if nst = ''putt'' then ''overshoot'' else ''left bunker''),
      confidence = Some (83 / 100)\<rparr>"

definition mock_shotContext :: "string \<Rightarrow> shotContext" where
  "mock_shotContext nst =
     \<lparr>surface = Some (if nst = ''putt'' then ''green'' else if nst = ''chip'' then ''rough''
                      else ''fairway''),
      conditions = Some \<lparr>wind = Some ''light'', elevation = Some ''+4ft''\<rparr>\<rparr>"

text \<open>
  \<open>nst\<close> is the normalised shot type, \<open>clubArg\<close> and \<open>distanceValue\<close> the optional form
  fields, \<open>url\<close> the image locator. The file name and the coordinates are stored too
  but never read by the core.
\<close>

definition photo_shotData ::
  "string \<Rightarrow> nat \<Rightarrow> string \<Rightarrow> string option \<Rightarrow> rat option \<Rightarrow> nat \<Rightarrow> string
     \<Rightarrow> string \<Rightarrow> shot" where
  "photo_shotData cId hole nst clubArg distanceValue now rnd url =
     \<lparr>shot_id = ''shot-'' @ string_of_nat now @ ''-'' @ rnd,
      courseId = cId, holeNumber = hole, shotType = Some nst,
      recommendation = Some (mock_recommendation nst),
      shotContext = Some (mock_shotContext nst),
      clubUsed = (if truthy clubArg then clubArg else club (mock_recommendation nst)),
      suggestedClub = None, distance = distanceValue,
      userFeedback = None, feedbackTimestamp = None,
      timestamp = Some (int now), uploadedAt = Some (int now), imageUrl = Some url\<rparr>"

subsection \<open>Objects used as dictionaries\<close>

text \<open>
  An object is an association list in insertion order. \<open>push_to\<close> is
  \<^verbatim>\<open>if (!obj[k]) obj[k] = []; obj[k].push(v)\<close> and \<open>group_by\<close> the \<^verbatim>\<open>forEach\<close> around it.
\<close>

definition push_to :: "'k \<Rightarrow> 'v \<Rightarrow> ('k \<times> 'v list) list \<Rightarrow> ('k \<times> 'v list) list" where
  "push_to k v obj =
     AList.update k ((case map_of obj k of None \<Rightarrow> [] | Some vs \<Rightarrow> vs) @ [v]) obj"

definition group_by :: "('v \<Rightarrow> 'k) \<Rightarrow> 'v list \<Rightarrow> ('k \<times> 'v list) list" where
  "group_by key xs = fold (\<lambda>x obj. push_to (key x) x obj) xs []"

text \<open>\<^verbatim>\<open>if (k) obj[k] = (obj[k] || 0) + 1\<close> and \<^verbatim>\<open>obj[k] || 0\<close>.\<close>

definition lookup_count :: "(string \<times> nat) list \<Rightarrow> string \<Rightarrow> nat" where
  "lookup_count obj k = (case map_of obj k of None \<Rightarrow> 0 | Some n \<Rightarrow> n)"

definition count_key :: "string option \<Rightarrow> (string \<times> nat) list \<Rightarrow> (string \<times> nat) list" where
  "count_key v obj =
     (case v of
        None \<Rightarrow> obj
      | Some k \<Rightarrow> if k = [] then obj else AList.update k (lookup_count obj k + 1) obj)"

text \<open>
  \<^verbatim>\<open>Object.keys(shotsByHole)\<close>: hole numbers are integer keys, listed in ascending
  order while they are array indices; \<^verbatim>\<open>parseInt\<close> gives the number back.
\<close>

definition hole_keys :: "nat list \<Rightarrow> nat list" where
  "hole_keys ks =
     sort (filter (\<lambda>h. int h < 4294967295) ks)
     @ filter (\<lambda>h. \<not> int h < 4294967295) ks"



text \<open>\<^verbatim>\<open>e.includes("+")\<close>\<close>

definition includes_plus :: "string \<Rightarrow> bool" where
  "includes_plus e = (CHR ''+'' \<in> set e)"

subsection \<open>Insight synthesizer: generateInsightsFromHistory\<close>











subsection \<open>Course intelligence aggregator: GET /api/insights/course\<close>

text \<open>
  The handler filters the loaded shots to the course and answers with lists computed
  from them (all empty when the course has no shot, which is also what the functions
  below give on the empty list). Of these lists, \<open>trickyHoles\<close>, \<open>clubInsights\<close> and
  \<open>aiNotes\<close> are modelled.
\<close>

definition courseShots :: "string \<Rightarrow> shot list \<Rightarrow> shot list" where
  "courseShots cId allShots = filter (\<lambda>s. \<not> courseId s \<noteq> cId) allShots"

paragraph \<open>Tricky holes\<close>

text \<open>
  \<^verbatim>\<open>x.toFixed(1)\<close> picks the integer \<open>n\<close> with \<open>n / 10\<close> nearest to the exact value of
  the double \<open>x\<close>, the larger one on a tie, and prints it with one decimal.
  \<^verbatim>\<open>parseFloat\<close> reads a decimal as the nearest double (only decimals of the form that
  \<^verbatim>\<open>toFixed\<close> prints are read here).
\<close>

definition toFixed1_abs :: "rat \<Rightarrow> string" where
  "toFixed1_abs x =
     (let n = nat \<lfloor>x * 10 + 1 / 2\<rfloor>
      in string_of_nat (n div 10) @ ''.'' @ string_of_nat (n mod 10))"

definition toFixed1 :: "rat \<Rightarrow> string" where
  "toFixed1 x = (if x < 0 then ''-'' @ toFixed1_abs (- x) else toFixed1_abs x)"










paragraph \<open>Club insights\<close>

record clubStat =
  cs_club :: string
  cs_distances :: "rat list"
  cs_shots :: "shot list"

record clubInsight =
  ci_club :: string
  ci_avg :: int
  ci_profile :: int
  ci_note :: string

text \<open>\<^verbatim>\<open>shot.recommendation?.club || shot.clubUsed\<close>\<close>

definition shot_club :: "shot \<Rightarrow> string option" where
  "shot_club s = js_or (rec_club s) (clubUsed s)"

text \<open>
  One iteration of the loop that fills \<^verbatim>\<open>clubStats\<close>; \<open>double d\<close> is the number held in
  \<^verbatim>\<open>shot.distance\<close>.
\<close>

definition add_club_stat :: "shot \<Rightarrow> (string \<times> clubStat) list \<Rightarrow> (string \<times> clubStat) list" where
  "add_club_stat s stats =
     (case shot_club s of
        None \<Rightarrow> stats
      | Some c \<Rightarrow>
          if c = [] then stats
          else
            (let st = (case map_of stats c of
                         None \<Rightarrow> \<lparr>cs_club = c, cs_distances = [], cs_shots = []\<rparr>
                       | Some st0 \<Rightarrow> st0);
                 st1 = (case distance s of
                          None \<Rightarrow> st
                        | Some d \<Rightarrow>
                            if double d \<noteq> 0
                            then st\<lparr>cs_distances := cs_distances st @ [double d]\<rparr>
                            else st)
             in AList.update c (st1\<lparr>cs_shots := cs_shots st1 @ [s]\<rparr>) stats))"

definition clubStats :: "shot list \<Rightarrow> (string \<times> clubStat) list" where
  "clubStats cShots = fold add_club_stat cShots []"

text \<open>
  Every sum of the \<^verbatim>\<open>reduce\<close>, the quotient and the difference are rounded to doubles.
  \<^verbatim>\<open>Math.round\<close> gives the integer nearest to the exact value of the double, a half
  upwards.
\<close>

definition club_insight :: "clubStat \<Rightarrow> clubInsight list" where
  "club_insight st =
     (if length (cs_distances st) = 0 then []
      else
        (let avg = double (fold (\<lambda>d sum. double (sum + d)) (cs_distances st) 0
                           / rat_of_nat (length (cs_distances st)));
             profile = 150;
             diff = double (avg - profile)
         in [\<lparr>ci_club = cs_club st,
              ci_avg = \<lfloor>avg + 1 / 2\<rfloor>,
              ci_profile = 150,
              ci_note = (if diff < - 10 then ''User hits this short here''
                         else if diff > 10 then ''User hits this longer here''
                         else ''Distance matches profile'')\<rparr>]))"

definition clubInsights :: "shot list \<Rightarrow> clubInsight list" where
  "clubInsights cShots =
     (let stats = clubStats cShots
      in concat (map (\<lambda>c. case map_of stats c of None \<Rightarrow> [] | Some st \<Rightarrow> club_insight st)
                   (object_keys (map fst stats))))"

paragraph \<open>Narrative notes\<close>

definition surface_counts :: "shot list \<Rightarrow> (string \<times> nat) list" where
  "surface_counts cShots =
     fold (\<lambda>s obj. case shotContext s of None \<Rightarrow> obj | Some c \<Rightarrow> count_key (surface c) obj)
       cShots []"

definition elevation_counts :: "shot list \<Rightarrow> (string \<times> nat) list" where
  "elevation_counts cShots =
     fold (\<lambda>s obj. case shotContext s of None \<Rightarrow> obj | Some c \<Rightarrow> count_key (ctx_elevation c) obj)
       cShots []"

definition holeWind :: "shot list \<Rightarrow> (string \<times> nat) list" where
  "holeWind holeShots = fold (\<lambda>s obj. count_key (shot_wind s) obj) holeShots []"

text \<open>
  \<^verbatim>\<open>holeWind["into"] || holeWind["strong"]\<close>: the count of "into" when it is there (a
  count that is there is at least one), else the count of "strong", else undefined.
\<close>

definition intoWind :: "(string \<times> nat) list \<Rightarrow> nat option" where
  "intoWind hw =
     (case map_of hw ''into'' of
        None \<Rightarrow> map_of hw ''strong''
      | Some n \<Rightarrow> if n \<noteq> 0 then Some n else map_of hw ''strong'')"

definition wind_note :: "nat \<Rightarrow> string" where
  "wind_note h = ''Wind was into on Hole '' @ string_of_nat h @ '' three rounds in a row.''"

definition wind_notes :: "nat \<Rightarrow> shot list \<Rightarrow> string list" where
  "wind_notes h holeShots =
     (case intoWind (holeWind holeShots) of
        None \<Rightarrow> []
      | Some n \<Rightarrow> if n \<noteq> 0 \<and> n \<ge> 3 then [wind_note h] else [])"

definition aiNotes :: "shot list \<Rightarrow> string list" where
  "aiNotes cShots =
     (let shotsByHole = group_by holeNumber cShots;
          roughCount = lookup_count (surface_counts cShots) ''rough'';
          uphillCount = length (filter (\<lambda>e. e \<noteq> [] \<and> includes_plus e)
                                  (object_keys (map fst (elevation_counts cShots))));
          helpful = length (filter (\<lambda>s. userFeedback s = Some ''helpful'') cShots);
          off = length (filter (\<lambda>s. userFeedback s = Some ''off'') cShots)
      in (if roughCount \<ge> 3 then [''Fairways were soft on your last round.''] else [])
         @ concat (map (\<lambda>h. case map_of shotsByHole h of
                              None \<Rightarrow> []
                            | Some holeShots \<Rightarrow> wind_notes h holeShots)
                     (hole_keys (map fst shotsByHole)))
         @ (if uphillCount \<ge> 2 then
              [''Course has several uphill holes. Consider club selection.'']
            else [])
         @ (if helpful > off * 2 \<and> helpful \<ge> 5 then
              [''AI recommendations have been working well on this course.'']
            else if off > helpful \<and> off \<ge> 3 then
              [''AI recommendations may need adjustment for this course's conditions.'']
            else []))"

section \<open>Notions the properties are stated with\<close>

subsection \<open>The feedback invariant of the store\<close>

definition feedback_ok :: "string option \<Rightarrow> bool" where
  "feedback_ok v = (v = None \<or> v = Some ''helpful'' \<or> v = Some ''off'')"

definition store_ok :: "world \<Rightarrow> bool" where
  "store_ok w = list_all (\<lambda>s. feedback_ok (userFeedback s)) (fst (loadShots w))"

subsection \<open>Groups of the insight synthesizer\<close>




subsection \<open>Wind counts of a hole\<close>

text \<open>
  The shots of the course on hole \<open>h\<close> (\<^verbatim>\<open>shotsByHole[h]\<close>), how many shots of a list
  have wind \<open>k\<close> recorded, and how many shots on hole \<open>h\<close> have wind "into" or "strong"
  recorded.
\<close>

definition hole_shots :: "nat \<Rightarrow> shot list \<Rightarrow> shot list" where
  "hole_shots h cShots = filter (\<lambda>s. holeNumber s = h) cShots"

definition wind_count :: "string \<Rightarrow> shot list \<Rightarrow> nat" where
  "wind_count k holeShots = length (filter (\<lambda>s. shot_wind s = Some k) holeShots)"

definition into_or_strong_count :: "nat \<Rightarrow> shot list \<Rightarrow> nat" where
  "into_or_strong_count h cShots =
     length (filter (\<lambda>s. shot_wind s = Some ''into'' \<or> shot_wind s = Some ''strong'')
               (hole_shots h cShots))"

subsection \<open>Distance samples of a club\<close>

text \<open>
  The shots of the course filed under club \<open>c\<close>, and the distances among them that are
  present and not zero, as doubles, in the order of the shots; \<open>stat_of\<close> is the
  statistics record with exactly these; \<open>js_mean\<close> is their mean as the source computes
  it, and \<open>club_entry\<close> the insight computed from a list of samples.
\<close>

definition club_shots :: "string \<Rightarrow> shot list \<Rightarrow> shot list" where
  "club_shots c cShots = filter (\<lambda>s. shot_club s = Some c) cShots"

definition distance_samples :: "string \<Rightarrow> shot list \<Rightarrow> rat list" where
  "distance_samples c cShots =
     concat (map (\<lambda>s. case distance s of
                         None \<Rightarrow> []
                       | Some d \<Rightarrow> if d \<noteq> 0 then [double d] else [])
               (club_shots c cShots))"

definition stat_of :: "string \<Rightarrow> shot list \<Rightarrow> clubStat" where
  "stat_of c xs =
     \<lparr>cs_club = c, cs_distances = distance_samples c xs, cs_shots = club_shots c xs\<rparr>"

definition js_mean :: "rat list \<Rightarrow> rat" where
  "js_mean ds = double (fold (\<lambda>d sum. double (sum + d)) ds 0 / rat_of_nat (length ds))"

definition club_entry :: "string \<Rightarrow> rat list \<Rightarrow> clubInsight" where
  "club_entry c ds =
     \<lparr>ci_club = c,
      ci_avg = \<lfloor>js_mean ds + 1 / 2\<rfloor>,
      ci_profile = 150,
      ci_note = (if double (js_mean ds - 150) < - 10 then ''User hits this short here''
                 else if double (js_mean ds - 150) > 10 then ''User hits this longer here''
                 else ''Distance matches profile'')\<rparr>"

section \<open>Example data\<close>

text \<open>A store that holds the given shots and can be written.\<close>

definition store_of :: "shot list \<Rightarrow> world" where
  "store_of xs = \<lparr>document = Stored xs, writable = True, console = []\<rparr>"

text \<open>A drive on hole 7 of "pebble", as the photo handler stores it.\<close>

definition pebble7 :: shot where
  "pebble7 =
     photo_shotData ''pebble'' 7 ''drive'' None None 1000 ''k3x9q0zup''
       ''/uploads/pebble/1000-hole7-drive.jpg''"

text \<open>A feedback-only record of course "pebble", as the feedback handler builds it.\<close>

definition fb :: "string option \<Rightarrow> nat \<Rightarrow> nat \<Rightarrow> shot" where
  "fb feedback hole now = feedbackData feedback ''pebble'' hole None now ''k3x9q0zup''"

text \<open>Four feedback records on hole 7 of "pebble": three "off" and one "helpful".\<close>

definition hole7 :: "shot list" where
  "hole7 = [fb (Some ''off'') 7 1000, fb (Some ''off'') 7 2000, fb (Some ''helpful'') 7 3000,
            fb (Some ''off'') 7 4000]"



text \<open>A drive on "pebble" whose analysed context records the wind \<open>k\<close>.\<close>

definition wind_shot :: "string \<Rightarrow> nat \<Rightarrow> nat \<Rightarrow> shot" where
  "wind_shot k hole now =
     (photo_shotData ''pebble'' hole ''drive'' None None now ''k3x9q0zup'' ''/uploads/p.jpg'')
       \<lparr>shotContext :=
          Some \<lparr>surface = Some ''fairway'',
                conditions = Some \<lparr>wind = Some k, elevation = Some ''+4ft''\<rparr>\<rparr>\<rparr>"

text \<open>
  A shot on hole 7 of "pebble" of type \<open>nst\<close> with the distance field \<open>d\<close>, and a course
  history of drives (7 iron) with the distances 139.1, 0, 139.2 and 140.2 and chips (SW)
  with no distance and the distance 0.
\<close>

definition dist_shot :: "string \<Rightarrow> rat option \<Rightarrow> nat \<Rightarrow> shot" where
  "dist_shot nst d now =
     photo_shotData ''pebble'' 7 nst None d now ''k3x9q0zup'' ''/uploads/p.jpg''"

definition club_example :: "shot list" where
  "club_example =
     [dist_shot ''drive'' (Some (1391 / 10)) 1000, dist_shot ''drive'' (Some 0) 2000,
      dist_shot ''chip'' None 3000, dist_shot ''chip'' (Some 0) 4000,
      dist_shot ''drive'' (Some (696 / 5)) 5000, dist_shot ''drive'' (Some (701 / 5)) 6000]"

section \<open>Properties\<close>

subsection \<open>Reading the store\<close>

text \<open>
  C8. Reading the store never raises: \<open>loadShots\<close> always returns a collection and leaves
  the document alone, and whatever its body throws is logged and turned into the empty
  collection. An absent document gives the empty collection without a log line; a
  document that is not parseable JSON gives the empty collection and one more line on
  the error console.
\<close>

theorem loadShots_total:
  "(\<exists>xs w'. loadShots w = (xs, w') \<and> document w' = document w)
   \<and> (document w = Absent \<longrightarrow> loadShots w = ([], w))
   \<and> (document w = Malformed \<longrightarrow>
        loadShots_try w = Inl SyntaxError
        \<and> loadShots w = ([], w\<lparr>console := console w @ [''Error loading shots:'']\<rparr>))
   \<and> (\<forall>err. loadShots_try w = Inl err \<longrightarrow>
        loadShots w = ([], w\<lparr>console := console w @ [''Error loading shots:'']\<rparr>))"
  by (cases "document w") (simp_all add: loadShots_def loadShots_try_def)

theorem loadShots_total_witness:
  "loadShots \<lparr>document = Absent, writable = True, console = []\<rparr>
     = ([], \<lparr>document = Absent, writable = True, console = []\<rparr>)
   \<and> loadShots_try \<lparr>document = Malformed, writable = True, console = []\<rparr> = Inl SyntaxError
   \<and> loadShots \<lparr>document = Malformed, writable = True, console = []\<rparr>
     = ([], \<lparr>document = Malformed, writable = True, console = [''Error loading shots:'']\<rparr>)"
  using loadShots_total [of "\<lparr>document = Absent, writable = True, console = []\<rparr>"]
        loadShots_total [of "\<lparr>document = Malformed, writable = True, console = []\<rparr>"]
  by simp

subsection \<open>Relevance matching\<close>

lemma relevant_iff:
  "relevant cId holeNum sType clb s \<longleftrightarrow>
     courseId s = cId \<and> holeNumber s = holeNum
     \<and> (truthy sType \<longrightarrow> shotType s = sType)
     \<and> (truthy clb \<longrightarrow> rec_club s = clb)"
  by (auto simp: relevant_def)

lemma set_findRelevantShots:
  "set (findRelevantShots cId holeNum sType clb w)
     = {s \<in> set (fst (loadShots w)). relevant cId holeNum sType clb s}"
  by (simp add: findRelevantShots_def)

lemma loadShots_store_of: "loadShots (store_of xs) = (xs, store_of xs)"
  by (simp add: loadShots_def loadShots_try_def store_of_def)

text \<open>
  C2, as the code has it. A stored record is returned exactly when its course and its
  hole equal the query's, and its shot type equals the query's when that is a non-empty
  string, and the club of its recommendation equals the query's when that is a
  non-empty string. A shot type or club that is absent or the empty string does not
  filter.
\<close>

theorem findRelevantShots_exact:
  "s \<in> set (findRelevantShots cId holeNum sType clb w) \<longleftrightarrow>
     s \<in> set (fst (loadShots w))
     \<and> courseId s = cId \<and> holeNumber s = holeNum
     \<and> (\<forall>t. sType = Some t \<and> t \<noteq> [] \<longrightarrow> shotType s = Some t)
     \<and> (\<forall>c. clb = Some c \<and> c \<noteq> [] \<longrightarrow> rec_club s = Some c)"
  by (auto simp: set_findRelevantShots relevant_iff truthy_def split: option.splits)

theorem findRelevantShots_exact_witness:
  "pebble7 \<in> set (findRelevantShots ''pebble'' 7 (Some ''drive'') (Some ''7 iron'') (store_of [pebble7]))
   \<and> pebble7 \<notin> set (findRelevantShots ''pebble'' 8 (Some ''drive'') (Some ''7 iron'') (store_of [pebble7]))
   \<and> pebble7 \<notin> set (findRelevantShots ''augusta'' 7 (Some ''drive'') (Some ''7 iron'') (store_of [pebble7]))
   \<and> pebble7 \<notin> set (findRelevantShots ''pebble'' 7 (Some ''chip'') (Some ''7 iron'') (store_of [pebble7]))
   \<and> pebble7 \<notin> set (findRelevantShots ''pebble'' 7 (Some ''drive'') (Some ''SW'') (store_of [pebble7]))"
  using findRelevantShots_exact [of pebble7 "''pebble''" 7 "Some ''drive''" "Some ''7 iron''" "store_of [pebble7]"]
        findRelevantShots_exact [of pebble7 "''pebble''" 8 "Some ''drive''" "Some ''7 iron''" "store_of [pebble7]"]
        findRelevantShots_exact [of pebble7 "''augusta''" 7 "Some ''drive''" "Some ''7 iron''" "store_of [pebble7]"]
        findRelevantShots_exact [of pebble7 "''pebble''" 7 "Some ''chip''" "Some ''7 iron''" "store_of [pebble7]"]
        findRelevantShots_exact [of pebble7 "''pebble''" 7 "Some ''drive''" "Some ''SW''" "store_of [pebble7]"]
  by (simp_all add: loadShots_store_of pebble7_def photo_shotData_def rec_club_def
        mock_recommendation_def)

text \<open>
  The query (pebble, 7, "drive", "") supplies a club, the empty string; the stored
  record was recommended a 7 iron and is returned all the same.
\<close>

theorem findRelevantShots_empty_club:
  "pebble7 \<in> set (findRelevantShots ''pebble'' 7 (Some ''drive'') (Some []) (store_of [pebble7]))
   \<and> rec_club pebble7 = Some ''7 iron''"
  by (simp add: set_findRelevantShots loadShots_store_of relevant_def truthy_def pebble7_def
        photo_shotData_def rec_club_def mock_recommendation_def)

subsection \<open>Recency ordering\<close>

lemma sorted_desc_sort_key:
  "sorted_wrt (\<lambda>a b. f b \<le> (f a :: 'b :: linordered_idom)) (sort_key (\<lambda>a. - f a) xs)"
proof -
  have "sorted (map (\<lambda>a. - f a) (sort_key (\<lambda>a. - f a) xs))"
    by (rule sorted_sort_key)
  then show ?thesis
    by (simp add: sorted_map)
qed

lemma sort_three:
  fixes f :: "'a \<Rightarrow> int"
  assumes m: "mset xs = {#a, b, c#}" and ab: "f a < f b" and bc: "f b < f c"
  shows "sort_key (\<lambda>x. - f x) xs = [c, b, a]"
proof (rule properties_for_sort_key)
  show "mset [c, b, a] = mset xs" using m by (simp add: add_mset_commute)
next
  fix k assume k: "k \<in> set [c, b, a]"
  have "mset (filter (\<lambda>x. - f k = - f x) xs)
          = filter_mset (\<lambda>x. - f k = - f x) {#a, b, c#}"
    unfolding mset_filter m ..
  also have "\<dots> = {#k#}" using k ab bc by auto
  finally have "mset (filter (\<lambda>x. - f k = - f x) xs) = {#k#}" .
  then have "filter (\<lambda>x. - f k = - f x) xs = [k]"
    by (rule mset_single_iff [THEN iffD1])
  moreover have "filter (\<lambda>x. - f k = - f x) [c, b, a] = [k]"
    using k ab bc by auto
  ultimately show "filter (\<lambda>x. - f k = - f x) [c, b, a] = filter (\<lambda>x. - f k = - f x) xs"
    by simp
next
  show "sorted (map (\<lambda>x. - f x) [c, b, a])" using ab bc by simp
qed

text \<open>
  C3. The records returned by \<open>findRelevantShots\<close> are in descending order of their
  best-known time, which is \<open>timestamp\<close>, else \<open>uploadedAt\<close>, else the epoch. When the
  records of the store that match are three, whatever their order in the store, with
  times \<open>t1 < t2 < t3\<close>, the result is the third, the second, the first.
\<close>

theorem findRelevantShots_newest_first:
  "sorted_wrt (\<lambda>a b. best_time b \<le> best_time a) (findRelevantShots cId holeNum sType clb w)
   \<and> (\<forall>a t. timestamp a = Some t \<longrightarrow> best_time a = t)
   \<and> (\<forall>a u. timestamp a = None \<and> uploadedAt a = Some u \<longrightarrow> best_time a = u)
   \<and> (\<forall>a. timestamp a = None \<and> uploadedAt a = None \<longrightarrow> best_time a = 0)
   \<and> (\<forall>r1 r2 r3.
         mset (filter (relevant cId holeNum sType clb) (fst (loadShots w))) = {#r1, r2, r3#}
         \<and> best_time r1 < best_time r2 \<and> best_time r2 < best_time r3
         \<longrightarrow> findRelevantShots cId holeNum sType clb w = [r3, r2, r1])"
proof -
  have "sorted_wrt (\<lambda>a b. best_time b \<le> best_time a) (findRelevantShots cId holeNum sType clb w)"
    unfolding findRelevantShots_def by (rule sorted_desc_sort_key)
  moreover have "\<forall>r1 r2 r3.
         mset (filter (relevant cId holeNum sType clb) (fst (loadShots w))) = {#r1, r2, r3#}
         \<and> best_time r1 < best_time r2 \<and> best_time r2 < best_time r3
         \<longrightarrow> findRelevantShots cId holeNum sType clb w = [r3, r2, r1]"
    unfolding findRelevantShots_def by (blast intro: sort_three)
  ultimately show ?thesis
    by (simp add: best_time_def)
qed

theorem findRelevantShots_newest_first_witness:
  "findRelevantShots ''pebble'' 7 None None
     (store_of [fb None 7 2000, fb None 7 1000, fb None 3 5000, fb None 7 3000])
   = [fb None 7 3000, fb None 7 2000, fb None 7 1000]"
proof -
  have t: "best_time (fb None 7 1000) = 1000" "best_time (fb None 7 2000) = 2000"
    "best_time (fb None 7 3000) = 3000"
    by (simp_all add: best_time_def fb_def feedbackData_def)
  have "mset (filter (relevant ''pebble'' 7 None None)
          (fst (loadShots (store_of [fb None 7 2000, fb None 7 1000, fb None 3 5000, fb None 7 3000]))))
        = {#fb None 7 1000, fb None 7 2000, fb None 7 3000#}"
    by (simp add: loadShots_store_of relevant_def truthy_def fb_def feedbackData_def)
  with t show ?thesis
    using findRelevantShots_newest_first [of "''pebble''" 7 None None
        "store_of [fb None 7 2000, fb None 7 1000, fb None 3 5000, fb None 7 3000]"]
    by simp
qed

subsection \<open>What the store operations do to the document\<close>

lemma fst_loadShots: "fst (loadShots w) = (case document w of Stored xs \<Rightarrow> xs | _ \<Rightarrow> [])"
  by (simp add: loadShots_def loadShots_try_def split: document.splits)

lemma document_snd_loadShots: "document (snd (loadShots w)) = document w"
  by (simp add: loadShots_def loadShots_try_def split: document.splits)

lemma writable_snd_loadShots: "writable (snd (loadShots w)) = writable w"
  by (simp add: loadShots_def loadShots_try_def split: document.splits)

lemma document_saveShots:
  "document (snd (saveShots xs w)) = (if writable w then Stored xs else document w)"
  by (simp add: saveShots_def saveShots_try_def)

lemma document_addShot:
  "document (addShot x w) = (if writable w then Stored (fst (loadShots w) @ [x]) else document w)"
  by (simp add: addShot_def split_beta document_saveShots document_snd_loadShots
      writable_snd_loadShots)

lemma find_None_iff_id: "find (\<lambda>s. shot_id s = sid) xs = None \<longleftrightarrow> sid \<notin> shot_id ` set xs"
  by (auto simp: find_None_iff)

lemma document_updateShotFeedback:
  "document (snd (updateShotFeedback sid feedback now w)) =
     (if sid \<in> shot_id ` set (fst (loadShots w)) \<and> writable w
      then Stored (update_found (\<lambda>s. shot_id s = sid)
                    (\<lambda>s. s\<lparr>userFeedback := feedback, feedbackTimestamp := Some now\<rparr>)
                    (fst (loadShots w)))
      else document w)"
proof (cases "find (\<lambda>s. shot_id s = sid) (fst (loadShots w))")
  case None
  then have "sid \<notin> shot_id ` set (fst (loadShots w))" by (simp add: find_None_iff_id)
  with None show ?thesis
    by (simp add: updateShotFeedback_def split_beta document_snd_loadShots)
next
  case (Some a)
  then have "sid \<in> shot_id ` set (fst (loadShots w))"
    using find_None_iff_id [of sid "fst (loadShots w)"] by simp
  with Some show ?thesis
    by (simp add: updateShotFeedback_def split_beta document_saveShots document_snd_loadShots
        writable_snd_loadShots)
qed

subsection \<open>Feedback for an unknown shot\<close>

text \<open>
  C7, as the code has it. For every store and every non-empty \<open>shotId\<close> that is the id of
  no stored record, the feedback handler answers \<^verbatim>\<open>{ ok: true }\<close> and leaves the
  document as it was: no record is changed and none is appended. (An empty \<open>shotId\<close> is
  falsy and takes the branch that appends a feedback-only record.)
\<close>

theorem feedback_unknown_id_noop:
  "sid \<noteq> [] \<Longrightarrow> sid \<notin> shot_id ` set (fst (loadShots w)) \<Longrightarrow>
     fst (feedback_caddie (Some sid) feedback cId hole sClub now rnd w) = Json_ok
     \<and> document (snd (feedback_caddie (Some sid) feedback cId hole sClub now rnd w)) = document w
     \<and> fst (loadShots (snd (feedback_caddie (Some sid) feedback cId hole sClub now rnd w)))
         = fst (loadShots w)"
  by (simp add: feedback_caddie_def document_updateShotFeedback fst_loadShots)

theorem feedback_unknown_id_noop_witness:
  "''nonexistent'' \<noteq> [] \<and> ''nonexistent'' \<notin> shot_id ` set (fst (loadShots (store_of [pebble7])))
   \<and> feedback_caddie (Some ''nonexistent'') (Some ''off'') ''pebble'' 7 (Some ''7 iron'') 2000
        ''k3x9q0zup'' (store_of [pebble7])
      = (Json_ok, store_of [pebble7])"
proof -
  have 1: "''nonexistent'' \<notin> shot_id ` set (fst (loadShots (store_of [pebble7])))"
    by (simp add: loadShots_store_of pebble7_def photo_shotData_def)
  have 2: "snd (feedback_caddie (Some ''nonexistent'') (Some ''off'') ''pebble'' 7 (Some ''7 iron'')
             2000 ''k3x9q0zup'' (store_of [pebble7])) = store_of [pebble7]"
    by (simp add: feedback_caddie_def updateShotFeedback_def loadShots_store_of pebble7_def
        photo_shotData_def)
  from 1 2 show ?thesis
    using feedback_unknown_id_noop [of "''nonexistent''" "store_of [pebble7]" "Some ''off''"
        "''pebble''" 7 "Some ''7 iron''" 2000 "''k3x9q0zup''"]
    by (simp add: prod_eq_iff)
qed

text \<open>
  The empty string is the id of no stored record, yet feedback submitted with it appends
  a feedback-only record to the store.
\<close>

theorem feedback_empty_id_appends:
  "[] \<notin> shot_id ` set (fst (loadShots (store_of [pebble7])))
   \<and> document (snd (feedback_caddie (Some []) (Some ''off'') ''pebble'' 7 (Some ''7 iron'') 2000
        ''k3x9q0zup'' (store_of [pebble7])))
      = Stored [pebble7, feedbackData (Some ''off'') ''pebble'' 7 (Some ''7 iron'') 2000 ''k3x9q0zup'']"
  by (simp add: feedback_caddie_def document_addShot loadShots_store_of)
     (simp add: store_of_def pebble7_def photo_shotData_def)

subsection \<open>The feedback invariant\<close>

lemma list_all_update_found:
  "list_all P xs \<Longrightarrow> (\<And>x. P x \<Longrightarrow> P (f x)) \<Longrightarrow> list_all P (update_found Q f xs)"
  by (induction xs) auto

lemma store_ok_document:
  "store_ok w \<longleftrightarrow>
     list_all (\<lambda>s. feedback_ok (userFeedback s)) (case document w of Stored xs \<Rightarrow> xs | _ \<Rightarrow> [])"
  by (simp add: store_ok_def fst_loadShots)

lemma store_ok_addShot:
  assumes "store_ok w" "feedback_ok (userFeedback x)"
  shows "store_ok (addShot x w)"
  using assms by (simp add: store_ok_document document_addShot fst_loadShots)

lemma store_ok_update:
  assumes "store_ok w" "feedback_ok feedback"
  shows "store_ok (snd (updateShotFeedback sid feedback now w))"
proof -
  have "list_all (\<lambda>s. feedback_ok (userFeedback s))
          (update_found (\<lambda>s. shot_id s = sid)
             (\<lambda>s. s\<lparr>userFeedback := feedback, feedbackTimestamp := Some now\<rparr>) (fst (loadShots w)))"
    using assms by (intro list_all_update_found) (simp_all add: store_ok_def)
  with assms(1) show ?thesis
    by (simp add: store_ok_document document_updateShotFeedback)
qed

text \<open>
  C9, as the code has it. When every stored record has \<open>userFeedback\<close> null, "helpful" or
  "off", this still holds after a new shot of the photo handler is appended (its
  \<open>userFeedback\<close> is null), and after the feedback handler has run with a submitted
  feedback that is itself null, "helpful" or "off", whichever of its two paths it takes.
  The handler stores the submitted feedback as it is, without a check.
\<close>

theorem feedback_invariant_preserved:
  "store_ok w \<Longrightarrow>
     store_ok (addShot (photo_shotData cId hole nst clubArg distanceValue now rnd url) w)
     \<and> (feedback_ok feedback \<longrightarrow>
          store_ok (snd (feedback_caddie shotId feedback cId' hole' sClub now' rnd' w)))"
  by (auto simp: feedback_caddie_def store_ok_addShot store_ok_update photo_shotData_def
        feedbackData_def feedback_ok_def split: option.splits)

theorem feedback_invariant_preserved_witness:
  "store_ok (store_of [pebble7]) \<and> feedback_ok (Some ''off'')
   \<and> store_ok (addShot (photo_shotData ''pebble'' 8 ''chip'' None None 3000 ''a1b2c3d4e'' ''/u.jpg'')
        (store_of [pebble7]))
   \<and> store_ok (snd (feedback_caddie (Some (shot_id pebble7)) (Some ''off'') ''pebble'' 7
        (Some ''7 iron'') 2000 ''k3x9q0zup'' (store_of [pebble7])))"
proof -
  have 1: "store_ok (store_of [pebble7])"
    by (simp add: store_ok_def loadShots_store_of feedback_ok_def pebble7_def photo_shotData_def)
  have 2: "feedback_ok (Some ''off'')"
    by (simp add: feedback_ok_def)
  from 1 2 show ?thesis
    using feedback_invariant_preserved [of "store_of [pebble7]" "''pebble''" 8 "''chip''" None None
        3000 "''a1b2c3d4e''" "''/u.jpg''" "Some ''off''" "Some (shot_id pebble7)" "''pebble''" 7
        "Some ''7 iron''" 2000 "''k3x9q0zup''"]
    by simp
qed

text \<open>
  The store holds one shot with null feedback; feedback "meh" submitted for its id is
  written to it, and the store no longer satisfies the invariant.
\<close>

theorem feedback_unchecked_verdict:
  "store_ok (store_of [pebble7])
   \<and> document (snd (feedback_caddie (Some (shot_id pebble7)) (Some ''meh'') ''pebble'' 7
        (Some ''7 iron'') 2000 ''k3x9q0zup'' (store_of [pebble7])))
      = Stored [pebble7\<lparr>userFeedback := Some ''meh'', feedbackTimestamp := Some 2000\<rparr>]
   \<and> \<not> store_ok (snd (feedback_caddie (Some (shot_id pebble7)) (Some ''meh'') ''pebble'' 7
        (Some ''7 iron'') 2000 ''k3x9q0zup'' (store_of [pebble7])))"
proof -
  have 1: "store_ok (store_of [pebble7])"
    by (simp add: store_ok_def loadShots_store_of feedback_ok_def pebble7_def photo_shotData_def)
  have 2: "shot_id pebble7 \<noteq> []"
    by (simp add: pebble7_def photo_shotData_def)
  have 3: "document (snd (feedback_caddie (Some (shot_id pebble7)) (Some ''meh'') ''pebble'' 7
        (Some ''7 iron'') 2000 ''k3x9q0zup'' (store_of [pebble7])))
      = Stored [pebble7\<lparr>userFeedback := Some ''meh'', feedbackTimestamp := Some 2000\<rparr>]"
    using 2 by (simp add: feedback_caddie_def document_updateShotFeedback loadShots_store_of)
      (simp add: store_of_def)
  have 4: "\<not> store_ok (snd (feedback_caddie (Some (shot_id pebble7)) (Some ''meh'') ''pebble'' 7
        (Some ''7 iron'') 2000 ''k3x9q0zup'' (store_of [pebble7])))"
    unfolding store_ok_document 3 by (simp add: feedback_ok_def)
  from 1 3 4 show ?thesis by simp
qed

subsection \<open>Decimal numerals, distinct elements, object keys, grouping\<close>

lemma digit_val_digit_char: "d < 10 \<Longrightarrow> digit_val (digit_char d) = d"
  by (simp add: digit_val_def digit_char_def)

lemma nat_of_string_snoc: "nat_of_string (s @ [c]) = 10 * nat_of_string s + digit_val c"
  by (simp add: nat_of_string_def)

lemma nat_of_string_of_nat: "nat_of_string (string_of_nat n) = n"
proof (induction n rule: string_of_nat.induct)
  case (1 n)
  show ?case
  proof (cases "n < 10")
    case True
    then show ?thesis
      by (simp add: string_of_nat.simps [of n] nat_of_string_def digit_val_digit_char)
  next
    case False
    with 1 show ?thesis
      by (simp add: string_of_nat.simps [of n] nat_of_string_snoc digit_val_digit_char)
  qed
qed

lemma string_of_nat_inj: "string_of_nat m = string_of_nat n \<longleftrightarrow> m = n"
  by (metis nat_of_string_of_nat)

lemma set_uniq [simp]: "set (uniq xs) = set xs"
  by (induction xs rule: uniq.induct) auto


lemma set_object_keys [simp]: "set (object_keys ks) = set ks"
  by (auto simp: object_keys_def)

lemma set_hole_keys [simp]: "set (hole_keys ks) = set ks"
  by (auto simp: hole_keys_def)

lemma map_of_push_to:
  "map_of (push_to k v obj) k' =
     (if k' = k then Some ((case map_of obj k of None \<Rightarrow> [] | Some vs \<Rightarrow> vs) @ [v])
      else map_of obj k')"
  by (simp add: push_to_def update_conv')

lemma filter_key_absent: "k \<notin> key ` set xs \<Longrightarrow> filter (\<lambda>x. key x = k) xs = []"
  by (auto simp: filter_empty_conv)

lemma map_of_fold_push:
  "map_of (fold (\<lambda>x obj. push_to (key x) x obj) xs obj) k =
     (if k \<in> key ` set xs
      then Some ((case map_of obj k of None \<Rightarrow> [] | Some vs \<Rightarrow> vs) @ filter (\<lambda>x. key x = k) xs)
      else map_of obj k)"
proof (induction xs arbitrary: obj)
  case Nil
  show ?case by simp
next
  case (Cons x xs)
  show ?case
    by (auto simp: Cons.IH map_of_push_to filter_key_absent)
qed

lemma map_of_group_by:
  "map_of (group_by key xs) k =
     (if k \<in> key ` set xs then Some (filter (\<lambda>x. key x = k) xs) else None)"
  by (simp add: group_by_def map_of_fold_push)

lemma keys_push_to: "fst ` set (push_to k v obj) = insert k (fst ` set obj)"
  by (simp add: push_to_def dom_update)

lemma keys_fold_push:
  "fst ` set (fold (\<lambda>x obj. push_to (key x) x obj) xs obj) = fst ` set obj \<union> key ` set xs"
proof (induction xs arbitrary: obj)
  case Nil
  show ?case by simp
next
  case (Cons x xs)
  have "fst ` set (fold (\<lambda>x obj. push_to (key x) x obj) (x # xs) obj)
          = fst ` set (push_to (key x) x obj) \<union> key ` set xs"
    by (simp add: Cons.IH)
  then show ?case
    by (simp add: keys_push_to)
qed

lemma keys_group_by: "set (map fst (group_by key xs)) = key ` set xs"
  by (simp add: group_by_def keys_fold_push)

subsection \<open>Rounding to doubles\<close>

lemma binexp_bounds:
  assumes "0 < a"
  shows "2 powi binexp a \<le> a \<and> a < 2 powi (binexp a + 1)"
proof -
  obtain p q where pq: "quotient_of a = (p, q)" by (cases "quotient_of a")
  have q: "0 < q" using pq by (rule quotient_of_denom_pos)
  have a: "a = rat_of_int p / rat_of_int q" using pq by (rule quotient_of_div)
  have p: "0 < p"
    using assms q unfolding a by (simp add: zero_less_divide_iff)
  define k where "k = bitlen p - bitlen q"
  have bp: "1 \<le> bitlen p" "1 \<le> bitlen q"
    using p q by (auto simp: bitlen_alt_def)
  have p_lo: "2 powi (bitlen p - 1) \<le> rat_of_int p" and p_hi: "rat_of_int p < 2 powi bitlen p"
   and q_lo: "2 powi (bitlen q - 1) \<le> rat_of_int q" and q_hi: "rat_of_int q < 2 powi bitlen q"
  proof -
    have "rat_of_int (2 ^ nat (bitlen p - 1)) \<le> rat_of_int p"
      using bitlen_bounds [OF p] by (simp only: of_int_le_iff)
    then show "2 powi (bitlen p - 1) \<le> rat_of_int p"
      using bp by (simp add: power_int_def)
    have "rat_of_int p < rat_of_int (2 ^ nat (bitlen p))"
      using bitlen_bounds [OF p] by (simp only: of_int_less_iff)
    then show "rat_of_int p < 2 powi bitlen p"
      using bp by (simp add: power_int_def)
    have "rat_of_int (2 ^ nat (bitlen q - 1)) \<le> rat_of_int q"
      using bitlen_bounds [OF q] by (simp only: of_int_le_iff)
    then show "2 powi (bitlen q - 1) \<le> rat_of_int q"
      using bp by (simp add: power_int_def)
    have "rat_of_int q < rat_of_int (2 ^ nat (bitlen q))"
      using bitlen_bounds [OF q] by (simp only: of_int_less_iff)
    then show "rat_of_int q < 2 powi bitlen q"
      using bp by (simp add: power_int_def)
  qed
  have pos: "\<And>n. (0::rat) < 2 powi n" by (simp add: zero_less_power_int)
  have hi: "a < 2 powi (k + 1)"
  proof -
    have p0: "0 \<le> rat_of_int p" using p by simp
    have "a < 2 powi bitlen p / 2 powi (bitlen q - 1)"
      unfolding a by (rule frac_less [OF p0 p_hi pos q_lo])
    also have "\<dots> = 2 powi (bitlen p - (bitlen q - 1))"
      by (simp add: power_int_diff)
    also have "bitlen p - (bitlen q - 1) = k + 1" by (simp add: k_def)
    finally show ?thesis .
  qed
  have lo: "2 powi (k - 1) \<le> a"
  proof -
    have q0: "0 < rat_of_int q" using q by simp
    have p0': "0 \<le> rat_of_int p" using p by simp
    have "2 powi (bitlen p - 1) / (2 powi bitlen q :: rat) \<le> a"
      unfolding a by (rule frac_le [OF p0' p_lo q0 less_imp_le [OF q_hi]])
    also have "2 powi (bitlen p - 1) / (2 powi bitlen q :: rat) = 2 powi ((bitlen p - 1) - bitlen q)"
      by (simp add: power_int_diff)
    also have "(bitlen p - 1) - bitlen q = k - 1" by (simp add: k_def)
    finally show ?thesis .
  qed
  have e: "binexp a = (if 2 powi k \<le> a then k else k - 1)"
    by (simp add: binexp_def pq k_def)
  show ?thesis
  proof (cases "2 powi k \<le> a")
    case True
    with hi e show ?thesis by simp
  next
    case False
    with lo e show ?thesis by simp
  qed
qed




lemma round_even_ge:
  assumes "rat_of_int m \<le> q"
  shows "m \<le> round_even q"
proof -
  have "m \<le> \<lfloor>q\<rfloor>" using assms by (simp add: le_floor_iff)
  then show ?thesis by (simp add: round_even_def Let_def)
qed

lemma round_even_le:
  assumes "q \<le> rat_of_int m"
  shows "round_even q \<le> m"
proof (cases "q = rat_of_int m")
  case True
  then show ?thesis by (simp add: round_even_def)
next
  case False
  with assms have "q < rat_of_int m" by simp
  then have "\<lfloor>q\<rfloor> < m" by (simp add: floor_less_iff)
  then show ?thesis by (simp add: round_even_def Let_def)
qed


lemma double_pos_eq:
  assumes "0 < a"
  shows "double a = rat_of_int (round_even (a / 2 powi (binexp a - 52))) * 2 powi (binexp a - 52)"
  using assms by (simp add: double_def Let_def)

lemma double_bounds:
  assumes "0 < a"
  shows "2 powi binexp a \<le> double a \<and> double a \<le> 2 powi (binexp a + 1)"
proof -
  define e where "e = binexp a"
  define u :: rat where "u = 2 powi (e - 52)"
  have u: "0 < u" by (simp add: u_def zero_less_power_int)
  have b: "2 powi e \<le> a" "a < 2 powi (e + 1)"
    using binexp_bounds [OF assms] by (simp_all add: e_def)
  have s: "2 powi e = 2 ^ 52 * u" "2 powi (e + 1) = 2 ^ 53 * u"
  proof -
    have "(2::rat) powi 52 * 2 powi (e - 52) = 2 powi (52 + (e - 52))"
      by (rule power_int_add [symmetric]) simp
    also have "52 + (e - 52) = e" by simp
    finally show "2 powi e = 2 ^ 52 * u" by (simp add: u_def)
    have "(2::rat) powi 53 * 2 powi (e - 52) = 2 powi (53 + (e - 52))"
      by (rule power_int_add [symmetric]) simp
    also have "53 + (e - 52) = e + 1" by simp
    finally show "2 powi (e + 1) = 2 ^ 53 * u" by (simp add: u_def)
  qed
  have c52: "rat_of_int (2 ^ 52) = 2 ^ 52" and c53: "rat_of_int (2 ^ 53) = 2 ^ 53"
    by (simp_all only: of_int_power of_int_numeral)
  have q1: "rat_of_int (2 ^ 52) \<le> a / u"
    unfolding c52 using b(1) u unfolding s(1) by (simp only: pos_le_divide_eq)
  have q2: "a / u \<le> rat_of_int (2 ^ 53)"
    unfolding c53 using b(2) u unfolding s(2) by (simp only: pos_divide_le_eq less_imp_le)
  have n1: "2 ^ 52 \<le> round_even (a / u)" using q1 by (rule round_even_ge)
  have n2: "round_even (a / u) \<le> 2 ^ 53" using q2 by (rule round_even_le)
  have d: "double a = rat_of_int (round_even (a / u)) * u"
    using double_pos_eq [OF assms] by (simp only: u_def e_def)
  have "rat_of_int (2 ^ 52) * u \<le> rat_of_int (round_even (a / u)) * u"
    using n1 u by (intro mult_right_mono) (simp_all only: of_int_le_iff less_imp_le)
  moreover have "rat_of_int (round_even (a / u)) * u \<le> rat_of_int (2 ^ 53) * u"
    using n2 u by (intro mult_right_mono) (simp_all only: of_int_le_iff less_imp_le)
  ultimately show ?thesis
    unfolding d e_def [symmetric] s c52 c53 by (rule conjI)
qed

lemma double_pos:
  assumes "0 < a"
  shows "0 < double a"
proof -
  have "(0::rat) < 2 powi binexp a" by (simp add: zero_less_power_int)
  also have "\<dots> \<le> double a" using double_bounds [OF assms] by simp
  finally show ?thesis .
qed

lemma double_minus: "double (- x) = - double x"
  by (simp add: double_def Let_def)

lemma double_eq_0_iff: "double x = 0 \<longleftrightarrow> x = 0"
proof
  assume d: "double x = 0"
  show "x = 0"
  proof (rule ccontr)
    assume "x \<noteq> 0"
    then consider "0 < x" | "0 < - x" by linarith
    then show False
    proof cases
      case 1
      with double_pos [of x] d show False by simp
    next
      case 2
      with double_pos [of "- x"] d show False by (simp add: double_minus)
    qed
  qed
next
  assume "x = 0"
  then show "double x = 0" by (simp add: double_def)
qed






















subsection \<open>Feedback sentences of the insight synthesizer\<close>

























subsection \<open>Printing and reading one decimal\<close>






subsection \<open>Tricky holes\<close>







text \<open>
  With 23 "off" among 40 feedbacks the exact score would be the decimal tie 1.15; the
  quotient is the double just below 0.575, and the score is printed as 1.1.
\<close>

lemma toFixed1_below_tie: "toFixed1 (2 * double (23 / 40)) = ''1.1''"
  by code_simp
















subsection \<open>The wind note\<close>

lemma lookup_count_key:
  "lookup_count (count_key v obj) k =
     (if v = Some k \<and> k \<noteq> [] then lookup_count obj k + 1 else lookup_count obj k)"
  by (auto simp: count_key_def lookup_count_def update_conv' split: option.splits)

lemma lookup_holeWind_fold:
  "k \<noteq> [] \<Longrightarrow>
   lookup_count (fold (\<lambda>s obj. count_key (shot_wind s) obj) xs obj) k
     = lookup_count obj k + wind_count k xs"
  by (induction xs arbitrary: obj) (auto simp: lookup_count_key wind_count_def)

lemma lookup_holeWind: "k \<noteq> [] \<Longrightarrow> lookup_count (holeWind xs) k = wind_count k xs"
  by (simp add: holeWind_def lookup_holeWind_fold) (simp add: lookup_count_def)

lemma intoWind_lookup:
  "(case intoWind hw of None \<Rightarrow> False | Some n \<Rightarrow> n \<noteq> 0 \<and> n \<ge> 3) \<longleftrightarrow>
     (lookup_count hw ''into'' \<ge> 3
      \<or> (lookup_count hw ''into'' = 0 \<and> lookup_count hw ''strong'' \<ge> 3))"
  by (auto simp: intoWind_def lookup_count_def split: option.splits)

lemma wind_notes_eq:
  "wind_notes h holeShots =
     (if wind_count ''into'' holeShots \<ge> 3
         \<or> (wind_count ''into'' holeShots = 0 \<and> wind_count ''strong'' holeShots \<ge> 3)
      then [wind_note h] else [])"
proof -
  have "wind_notes h holeShots =
     (if (case intoWind (holeWind holeShots) of None \<Rightarrow> False | Some n \<Rightarrow> n \<noteq> 0 \<and> n \<ge> 3)
      then [wind_note h] else [])"
    by (simp add: wind_notes_def split: option.splits)
  then show ?thesis
    by (simp only: intoWind_lookup) (simp add: lookup_holeWind)
qed

lemma wind_note_inj: "wind_note m = wind_note n \<longleftrightarrow> m = n"
  by (simp add: wind_note_def string_of_nat_inj)

lemma wind_count_empty: "wind_count k [] = 0"
  by (simp add: wind_count_def)

lemma wind_note_in_aiNotes:
  "wind_note n \<in> set (aiNotes cShots) \<longleftrightarrow>
     wind_count ''into'' (hole_shots n cShots) \<ge> 3
     \<or> (wind_count ''into'' (hole_shots n cShots) = 0
         \<and> wind_count ''strong'' (hole_shots n cShots) \<ge> 3)"
  (is "?L \<longleftrightarrow> ?P n")
proof -
  let ?F = "\<lambda>h. case map_of (group_by holeNumber cShots) h of
                   None \<Rightarrow> [] | Some holeShots \<Rightarrow> wind_notes h holeShots"
  have in_course: "n \<in> holeNumber ` set cShots" if "?P n"
  proof (rule ccontr)
    assume "n \<notin> holeNumber ` set cShots"
    then have "hole_shots n cShots = []"
      unfolding hole_shots_def by (rule filter_key_absent)
    with that show False by (simp add: wind_count_empty)
  qed
  have F: "\<And>h. set (?F h) = (if ?P h then {wind_note h} else {})"
    by (auto simp: map_of_group_by wind_notes_eq hole_shots_def filter_key_absent wind_count_empty)
  have "?L \<longleftrightarrow> wind_note n \<in> set (concat (map ?F (hole_keys (map fst (group_by holeNumber cShots)))))"
    by (simp add: aiNotes_def Let_def wind_note_def)
  also have "\<dots> \<longleftrightarrow>
      (\<exists>h \<in> set (hole_keys (map fst (group_by holeNumber cShots))). wind_note n \<in> set (?F h))"
    unfolding set_concat set_map by blast
  also have "\<dots> \<longleftrightarrow> (\<exists>h \<in> holeNumber ` set cShots. wind_note n \<in> set (?F h))"
    unfolding set_hole_keys keys_group_by ..
  also have "\<dots> \<longleftrightarrow> (\<exists>h \<in> holeNumber ` set cShots. ?P h \<and> n = h)"
    unfolding F by (auto simp: wind_note_inj)
  also have "\<dots> \<longleftrightarrow> ?P n"
    using in_course by blast
  finally show ?thesis .
qed

lemma wind_shot_fields:
  "holeNumber (wind_shot k h t) = h" "shot_wind (wind_shot k h t) = Some k"
  by (simp_all add: wind_shot_def photo_shotData_def shot_wind_def ctx_wind_def)

text \<open>
  C6, as the code has it. The notes of the course contain the wind note of hole \<open>n\<close>
  exactly when hole \<open>n\<close> has at least three shots with wind "into", or has no shot with
  wind "into" and at least three shots with wind "strong". The two counts are never
  added: the count of "strong" is looked at only when there is no "into" at all.
\<close>

theorem wind_note_rule:
  "wind_note n \<in> set (aiNotes cShots) \<longleftrightarrow>
     wind_count ''into'' (hole_shots n cShots) \<ge> 3
     \<or> (wind_count ''into'' (hole_shots n cShots) = 0
         \<and> wind_count ''strong'' (hole_shots n cShots) \<ge> 3)"
  by (rule wind_note_in_aiNotes)

theorem wind_note_rule_witness:
  "wind_note 7 = ''Wind was into on Hole 7 three rounds in a row.''
   \<and> wind_note 7 \<in> set (aiNotes [wind_shot ''strong'' 7 1000, wind_shot ''strong'' 7 2000,
                                  wind_shot ''light'' 7 3000, wind_shot ''strong'' 7 4000])
   \<and> wind_note 7 \<notin> set (aiNotes [wind_shot ''strong'' 7 1000, wind_shot ''strong'' 8 2000,
                                  wind_shot ''light'' 7 3000, wind_shot ''strong'' 7 4000])"
proof -
  have "wind_note 7 = ''Wind was into on Hole 7 three rounds in a row.''"
    by code_simp
  then show ?thesis
    using wind_note_rule [of 7 "[wind_shot ''strong'' 7 1000, wind_shot ''strong'' 7 2000,
                                  wind_shot ''light'' 7 3000, wind_shot ''strong'' 7 4000]"]
          wind_note_rule [of 7 "[wind_shot ''strong'' 7 1000, wind_shot ''strong'' 8 2000,
                                  wind_shot ''light'' 7 3000, wind_shot ''strong'' 7 4000]"]
    by (simp add: hole_shots_def wind_count_def wind_shot_fields)
qed

text \<open>
  Hole 7 has two shots with wind "into" and one with wind "strong", three shots in all
  with wind "into" or "strong", and the notes do not contain its wind note.
\<close>

theorem wind_note_counts_not_added:
  "into_or_strong_count 7
     [wind_shot ''into'' 7 1000, wind_shot ''into'' 7 2000, wind_shot ''strong'' 7 3000] = 3
   \<and> wind_note 7 \<notin> set (aiNotes [wind_shot ''into'' 7 1000, wind_shot ''into'' 7 2000,
                                  wind_shot ''strong'' 7 3000])"
  by (simp add: wind_note_in_aiNotes into_or_strong_count_def hole_shots_def wind_count_def
      wind_shot_fields)

subsection \<open>Club insights\<close>

lemma club_shots_snoc:
  "club_shots c (xs @ [x]) = (if shot_club x = Some c then club_shots c xs @ [x] else club_shots c xs)"
  by (simp add: club_shots_def)

lemma distance_samples_snoc:
  "distance_samples c (xs @ [x]) =
     (if shot_club x = Some c
      then distance_samples c xs
           @ (case distance x of None \<Rightarrow> [] | Some d \<Rightarrow> if d \<noteq> 0 then [double d] else [])
      else distance_samples c xs)"
  by (simp add: distance_samples_def club_shots_snoc)

lemma stat_of_absent:
  "Some c \<notin> shot_club ` set xs \<Longrightarrow> stat_of c xs = \<lparr>cs_club = c, cs_distances = [], cs_shots = []\<rparr>"
  by (simp add: stat_of_def distance_samples_def club_shots_def filter_key_absent)

lemma map_of_clubStats:
  "map_of (clubStats xs) c =
     (if c \<noteq> [] \<and> Some c \<in> shot_club ` set xs then Some (stat_of c xs) else None)"
proof (induction xs arbitrary: c rule: rev_induct)
  case Nil
  show ?case by (simp add: clubStats_def)
next
  case (snoc x xs)
  have step: "clubStats (xs @ [x]) = add_club_stat x (clubStats xs)"
    by (simp add: clubStats_def)
  show ?case
  proof (cases "shot_club x")
    case None
    then show ?thesis
      by (auto simp: step add_club_stat_def snoc.IH stat_of_def distance_samples_snoc club_shots_snoc)
  next
    case (Some k)
    show ?thesis
    proof (cases "k = []")
      case True
      with Some show ?thesis
        by (auto simp: step add_club_stat_def snoc.IH stat_of_def distance_samples_snoc club_shots_snoc)
    next
      case False
      show ?thesis
      proof (cases "c = k")
        case True
        show ?thesis
        proof (cases "Some k \<in> shot_club ` set xs")
          case True
          with Some False \<open>c = k\<close> show ?thesis
            by (simp add: step add_club_stat_def snoc.IH update_conv' Let_def stat_of_def
                distance_samples_snoc club_shots_snoc double_eq_0_iff split: option.splits)
        next
          case F: False
          with Some False \<open>c = k\<close> show ?thesis
            by (simp add: step add_club_stat_def snoc.IH update_conv' Let_def
                stat_of_absent [OF F] distance_samples_snoc club_shots_snoc double_eq_0_iff
                split: option.splits)
              (simp add: stat_of_def distance_samples_snoc club_shots_snoc
                 stat_of_absent [OF F, unfolded stat_of_def, simplified])
        qed
      next
        case N: False
        with Some False show ?thesis
          by (auto simp: step add_club_stat_def snoc.IH update_conv' Let_def stat_of_def
              distance_samples_snoc club_shots_snoc)
      qed
    qed
  qed
qed

lemma keys_clubStats:
  "set (map fst (clubStats xs)) = {c. c \<noteq> [] \<and> Some c \<in> shot_club ` set xs}"
proof -
  have "set (map fst (clubStats xs)) = dom (map_of (clubStats xs))"
    by (simp add: dom_map_of_conv_image_fst)
  also have "\<dots> = {c. c \<noteq> [] \<and> Some c \<in> shot_club ` set xs}"
    unfolding dom_def map_of_clubStats by simp
  finally show ?thesis .
qed

lemma club_insight_stat_of:
  "club_insight (stat_of c xs) =
     (if distance_samples c xs = [] then [] else [club_entry c (distance_samples c xs)])"
  by (simp add: club_insight_def stat_of_def Let_def club_entry_def js_mean_def)

lemma samples_nonempty_club:
  assumes "distance_samples c xs \<noteq> []"
  shows "Some c \<in> shot_club ` set xs"
proof (rule ccontr)
  assume "Some c \<notin> shot_club ` set xs"
  then have "club_shots c xs = []"
    unfolding club_shots_def by (rule filter_key_absent)
  with assms show False by (simp add: distance_samples_def)
qed

lemma clubInsights_step:
  "(case map_of (clubStats xs) c of None \<Rightarrow> [] | Some st \<Rightarrow> club_insight st) =
     (if c \<noteq> [] \<and> distance_samples c xs \<noteq> [] then [club_entry c (distance_samples c xs)] else [])"
proof (cases "c \<noteq> [] \<and> Some c \<in> shot_club ` set xs")
  case True
  then show ?thesis
    by (simp add: map_of_clubStats club_insight_stat_of)
next
  case False
  then have "c = [] \<or> distance_samples c xs = []"
    using samples_nonempty_club [of c xs] by blast
  with False show ?thesis
    by (auto simp: map_of_clubStats)
qed

lemma set_clubInsights:
  "set (clubInsights xs) =
     {club_entry c (distance_samples c xs) | c. c \<noteq> [] \<and> distance_samples c xs \<noteq> []}"
proof -
  have "set (clubInsights xs)
        = (\<Union>c \<in> {c. c \<noteq> [] \<and> Some c \<in> shot_club ` set xs}.
             set (if c \<noteq> [] \<and> distance_samples c xs \<noteq> []
                  then [club_entry c (distance_samples c xs)] else []))"
    unfolding clubInsights_def Let_def set_concat set_map image_image clubInsights_step
      set_object_keys keys_clubStats [unfolded set_map] ..
  also have "\<dots> = {club_entry c (distance_samples c xs) | c. c \<noteq> [] \<and> distance_samples c xs \<noteq> []}"
    using samples_nonempty_club [of _ xs]
    by auto
  finally show ?thesis .
qed

lemma sample_empty:
  "(case distance s of None \<Rightarrow> [] | Some d \<Rightarrow> if d \<noteq> 0 then [double d] else []) = []
     \<longleftrightarrow> distance s = None \<or> distance s = Some 0"
  by (cases "distance s") auto

lemma samples_empty_iff:
  "distance_samples c xs = [] \<longleftrightarrow>
     (\<forall>s \<in> set xs. shot_club s = Some c \<longrightarrow> distance s = None \<or> distance s = Some 0)"
  unfolding distance_samples_def club_shots_def concat_eq_Nil_conv
  by (auto simp: sample_empty)

lemma sample_member:
  "x \<in> set (case distance s of None \<Rightarrow> [] | Some d \<Rightarrow> if d \<noteq> 0 then [double d] else [])
     \<longleftrightarrow> (\<exists>d. distance s = Some d \<and> d \<noteq> 0 \<and> x = double d)"
  by (cases "distance s") auto

lemma samples_member:
  "x \<in> set (distance_samples c xs) \<longleftrightarrow>
     (\<exists>s \<in> set xs. shot_club s = Some c \<and> (\<exists>d. distance s = Some d \<and> d \<noteq> 0 \<and> x = double d))"
proof -
  have "x \<in> set (distance_samples c xs) \<longleftrightarrow>
      (\<exists>s \<in> set xs. shot_club s = Some c
          \<and> x \<in> set (case distance s of None \<Rightarrow> []
                                          | Some d \<Rightarrow> if d \<noteq> 0 then [double d] else []))"
    unfolding distance_samples_def club_shots_def set_concat set_map by fastforce
  then show ?thesis by (simp only: sample_member)
qed

lemma club_entry_club: "ci_club (club_entry c ds) = c"
  by (simp add: club_entry_def)

lemma clubInsights_entry_iff:
  "(\<exists>e \<in> set (clubInsights xs). ci_club e = c) \<longleftrightarrow> c \<noteq> [] \<and> distance_samples c xs \<noteq> []"
  unfolding set_clubInsights by (auto simp: club_entry_club)

lemma clubInsights_entry:
  assumes "e \<in> set (clubInsights xs)"
  shows "e = club_entry (ci_club e) (distance_samples (ci_club e) xs)"
proof -
  from assms obtain c where "e = club_entry c (distance_samples c xs)"
    unfolding set_clubInsights by blast
  then show ?thesis by (simp add: club_entry_club)
qed

lemma dist_shot_fields:
  "shot_club (dist_shot ''drive'' d t) = Some ''7 iron''"
  "shot_club (dist_shot ''chip'' d t) = Some ''SW''"
  "distance (dist_shot nst d t) = d"
  by (simp_all add: dist_shot_def photo_shotData_def shot_club_def js_or_def rec_club_def
      truthy_def mock_recommendation_def)

lemma club_example_samples:
  "distance_samples ''7 iron'' club_example
     = [double (1391 / 10), double (696 / 5), double (701 / 5)]"
  by (simp add: distance_samples_def club_shots_def club_example_def dist_shot_fields)

text \<open>
  The exact mean of 139.1, 139.2 and 141.7 is 140; the source computes 139.99999999999997,
  which is reported as 140 and is more than 10 below the profile.
\<close>

lemma club_entry_below_profile:
  "club_entry ''7 iron'' [double (1391 / 10), double (696 / 5), double (1417 / 10)]
     = \<lparr>ci_club = ''7 iron'', ci_avg = 140, ci_profile = 150,
         ci_note = ''User hits this short here''\<rparr>"
  by code_simp

lemma club_example_mean:
  "js_mean [double (1391 / 10), double (696 / 5), double (701 / 5)]
     = 4908219906392063 / 35184372088832"
  by code_simp

text \<open>
  C10. The distances that the loop over the course's shots collects for a club are the
  distances of the shots filed under that club that are present and not zero: a
  distance of 0 is left out like an absent one. \<open>clubInsights\<close> has an entry for a club
  exactly when some shot filed under it has a present, non-zero distance; the entry is
  computed from these distances alone, its average being their mean as the source
  computes it, rounded to an integer; and a club all of whose shots have an absent or
  zero distance has no entry.
\<close>

theorem clubInsights_samples:
  "(\<forall>x. x \<in> set (distance_samples c cShots) \<longleftrightarrow>
          (\<exists>s \<in> set cShots. shot_club s = Some c
              \<and> (\<exists>d. distance s = Some d \<and> d \<noteq> 0 \<and> x = double d)))
   \<and> (\<forall>st. map_of (clubStats cShots) c = Some st \<longrightarrow>
          cs_distances st = distance_samples c cShots)
   \<and> ((\<exists>e \<in> set (clubInsights cShots). ci_club e = c) \<longleftrightarrow>
        c \<noteq> [] \<and> (\<exists>s \<in> set cShots. shot_club s = Some c
                        \<and> (\<exists>d. distance s = Some d \<and> d \<noteq> 0)))
   \<and> (\<forall>e \<in> set (clubInsights cShots).
         e = club_entry (ci_club e) (distance_samples (ci_club e) cShots)
         \<and> ci_avg e = \<lfloor>js_mean (distance_samples (ci_club e) cShots) + 1 / 2\<rfloor>)
   \<and> ((\<forall>s \<in> set cShots. shot_club s = Some c \<longrightarrow> distance s = None \<or> distance s = Some 0)
        \<longrightarrow> \<not> (\<exists>e \<in> set (clubInsights cShots). ci_club e = c))"
proof -
  have 1: "\<forall>x. x \<in> set (distance_samples c cShots) \<longleftrightarrow>
          (\<exists>s \<in> set cShots. shot_club s = Some c
              \<and> (\<exists>d. distance s = Some d \<and> d \<noteq> 0 \<and> x = double d))"
    by (simp add: samples_member)
  have 2: "\<forall>st. map_of (clubStats cShots) c = Some st \<longrightarrow>
          cs_distances st = distance_samples c cShots"
    by (auto simp: map_of_clubStats stat_of_def split: if_splits)
  have ne: "distance_samples c cShots \<noteq> [] \<longleftrightarrow>
      (\<exists>s \<in> set cShots. shot_club s = Some c \<and> (\<exists>d. distance s = Some d \<and> d \<noteq> 0))"
    unfolding samples_empty_iff by auto
  have 3: "(\<exists>e \<in> set (clubInsights cShots). ci_club e = c) \<longleftrightarrow>
        c \<noteq> [] \<and> (\<exists>s \<in> set cShots. shot_club s = Some c
                        \<and> (\<exists>d. distance s = Some d \<and> d \<noteq> 0))"
    unfolding clubInsights_entry_iff ne ..
  have 4: "\<forall>e \<in> set (clubInsights cShots).
         e = club_entry (ci_club e) (distance_samples (ci_club e) cShots)
         \<and> ci_avg e = \<lfloor>js_mean (distance_samples (ci_club e) cShots) + 1 / 2\<rfloor>"
  proof
    fix e
    assume "e \<in> set (clubInsights cShots)"
    then have e: "e = club_entry (ci_club e) (distance_samples (ci_club e) cShots)"
      by (rule clubInsights_entry)
    have "ci_avg (club_entry (ci_club e) (distance_samples (ci_club e) cShots))
            = \<lfloor>js_mean (distance_samples (ci_club e) cShots) + 1 / 2\<rfloor>"
      by (simp add: club_entry_def)
    with e show "e = club_entry (ci_club e) (distance_samples (ci_club e) cShots)
         \<and> ci_avg e = \<lfloor>js_mean (distance_samples (ci_club e) cShots) + 1 / 2\<rfloor>"
      by simp
  qed
  have 5: "(\<forall>s \<in> set cShots. shot_club s = Some c \<longrightarrow> distance s = None \<or> distance s = Some 0)
        \<longrightarrow> \<not> (\<exists>e \<in> set (clubInsights cShots). ci_club e = c)"
    unfolding clubInsights_entry_iff samples_empty_iff [symmetric] by simp
  from 1 2 3 4 5 show ?thesis by blast
qed

text \<open>
  In the example the drives (7 iron) have the distances 139.1, 0, 139.2 and 140.2 and
  the chips (SW) none and 0. The mean of the three doubles is computed as
  139.49999999999997, so the entry reports 139.
\<close>

theorem clubInsights_samples_witness:
  "(\<exists>e \<in> set (clubInsights club_example). ci_club e = ''7 iron'' \<and> ci_avg e = 139)
   \<and> \<not> (\<exists>e \<in> set (clubInsights club_example). ci_club e = ''SW'')
   \<and> (\<forall>x. x \<in> set (distance_samples ''7 iron'' club_example) \<longleftrightarrow>
          x = double (1391 / 10) \<or> x = double (696 / 5) \<or> x = double (701 / 5))"
proof -
  have "dist_shot ''drive'' (Some (1391 / 10)) 1000 \<in> set club_example"
    by (simp add: club_example_def)
  moreover have "\<exists>d. distance (dist_shot ''drive'' (Some (1391 / 10)) 1000) = Some d \<and> d \<noteq> 0"
    by (intro exI [of _ "1391 / 10"]) (simp add: dist_shot_fields)
  ultimately have s7: "\<exists>s \<in> set club_example. shot_club s = Some ''7 iron''
              \<and> (\<exists>d. distance s = Some d \<and> d \<noteq> 0)"
    using dist_shot_fields(1) by blast
  have sw: "\<forall>s \<in> set club_example. shot_club s = Some ''SW''
              \<longrightarrow> distance s = None \<or> distance s = Some 0"
    by (simp add: club_example_def dist_shot_fields)
  note t7 = clubInsights_samples [of "''7 iron''" club_example]
  note tw = clubInsights_samples [of "''SW''" club_example]
  have "\<exists>e \<in> set (clubInsights club_example). ci_club e = ''7 iron''"
    using t7 [THEN conjunct2, THEN conjunct2, THEN conjunct1] s7 by simp
  then obtain e where e: "e \<in> set (clubInsights club_example)" "ci_club e = ''7 iron''"
    by blast
  have fl: "\<lfloor>(4908219906392063::rat) / 35184372088832 + 1 / 2\<rfloor> = 139"
    by (simp add: floor_eq_iff)
  have "ci_avg e = \<lfloor>js_mean (distance_samples (ci_club e) club_example) + 1 / 2\<rfloor>"
    using t7 [THEN conjunct2, THEN conjunct2, THEN conjunct2, THEN conjunct1] e(1) by blast
  then have "ci_avg e = 139"
    by (simp only: e(2) club_example_samples club_example_mean fl)
  with e have a: "\<exists>e \<in> set (clubInsights club_example). ci_club e = ''7 iron'' \<and> ci_avg e = 139"
    by blast
  have b: "\<not> (\<exists>e \<in> set (clubInsights club_example). ci_club e = ''SW'')"
    using tw [THEN conjunct2, THEN conjunct2, THEN conjunct2, THEN conjunct2] sw by blast
  have c: "\<forall>x. x \<in> set (distance_samples ''7 iron'' club_example) \<longleftrightarrow>
          x = double (1391 / 10) \<or> x = double (696 / 5) \<or> x = double (701 / 5)"
    by (simp add: club_example_samples)
  from a b c show ?thesis by blast
qed

end
